theory Spec2Isabelle
  imports Main
begin

section \<open>The PDF mass downloader\<close>

text \<open>
  A shallow embedding of \<^verbatim>\<open>Multi Thread and PDF Mass Download.py\<close>: the selection of
  the rows to download, the batch-size prompt, the download task \<^verbatim>\<open>download_pdf\<close> with
  its nested \<^verbatim>\<open>attempt_download\<close>, and the loop that collects the finished futures
  into the status frame. The network, the clock and the file system are explicit: what the
  outside answers is a \<^emph>\<open>world\<close> (oracles), what the program has done so far is a
  \<^emph>\<open>state\<close> that every effectful call takes and returns. Console output is not modelled.
\<close>

subsection \<open>Python values and string formatting\<close>

text \<open>
  \<^verbatim>\<open>str(n)\<close> for a non-negative integer, and \<^verbatim>\<open>f"{x:.2f}"\<close> for the float
  \<open>x = n / 1024\<close>. The quotient by 1024 is exact in binary floating point, and the format
  rounds the exact value to hundredths, ties to even.
\<close>

definition digit :: "nat \<Rightarrow> char" where
  "digit d = ''0123456789'' ! (d mod 10)"

fun str_nat :: "nat \<Rightarrow> string" where
  "str_nat n = (if n < 10 then [digit n] else str_nat (n div 10) @ [digit (n mod 10)])"

declare str_nat.simps [simp del]

definition hundredths_of_1024 :: "nat \<Rightarrow> nat" where
  "hundredths_of_1024 n =
     (let q = (n * 100) div 1024; r = (n * 100) mod 1024
      in if r > 512 \<or> (r = 512 \<and> odd q) then q + 1 else q)"

definition format_2f :: "nat \<Rightarrow> string" where
  "format_2f n =
     (let h = hundredths_of_1024 n
      in str_nat (h div 100) @ ''.'' @ [digit (h div 10), digit h])"

text \<open>
  The value of the variable \<^verbatim>\<open>file_size_kb\<close> and of a cell of the column
  \<^verbatim>\<open>File Size\<close>: a string, or the float \<open>n / 1024\<close> kept as its number of bytes \<open>n\<close>.
\<close>

datatype pyval = Str string | KB nat

text \<open>
  How a call ends: it returns, it raises \<^verbatim>\<open>SystemExit\<close> (\<^verbatim>\<open>sys.exit()\<close>), or it
  raises an exception that no handler of the program catches.
\<close>

datatype 'a outcome = Returned 'a | SystemExit | Uncaught string

subsection \<open>The outside world\<close>

type_synonym bytes = "char list"

text \<open>
  The exceptions of \<^verbatim>\<open>requests\<close> that the handlers of \<^verbatim>\<open>attempt_download\<close> tell
  apart, in the order of the \<^verbatim>\<open>except\<close> clauses. \<open>HTTPError\<close> carries
  \<^verbatim>\<open>response.status_code\<close>, \<open>RequestException\<close> carries \<^verbatim>\<open>str(req_err)\<close>.
\<close>

datatype request_exception =
    Timeout
  | HTTPError nat
  | ConnectionError
  | RequestException string

text \<open>
  What one \<^verbatim>\<open>requests.get(url, timeout=5, stream=True)\<close> meets: the call raises, or it
  gives a response with a status code, the \<^verbatim>\<open>Content-Type\<close> header (if any), the chunks
  that \<^verbatim>\<open>iter_content\<close> yields, and the exception that ends the stream early (if any).
\<close>

datatype reply =
    Raises request_exception
  | Response nat "string option" "bytes list" "request_exception option"

text \<open>
  The oracles: \<open>probe w k\<close> is whether the \<open>k\<close>-th call of
  \<^verbatim>\<open>has_internet_connection\<close> reaches 8.8.8.8:53; \<open>serve w url k\<close> is what the \<open>k\<close>-th
  request meets when it is sent to \<open>url\<close>; \<open>overrun w k\<close> is by how many milliseconds the
  \<open>k\<close>-th \<^verbatim>\<open>time.sleep\<close> outlasts the time asked for, the time taken by the calls
  that follow it up to the next reading of the clock included. The clock is read in the
  countdown only, where one probe and one sleep lie between two readings; the single probe
  between the reading of \<^verbatim>\<open>start_time\<close> and the first check of the countdown is cut
  off after 5 seconds by its own timeout and counts as no time.
\<close>

record world =
  probe :: "nat \<Rightarrow> bool"
  serve :: "string \<Rightarrow> nat \<Rightarrow> reply"
  overrun :: "nat \<Rightarrow> nat"

datatype event = Get string | Sleep nat

text \<open>
  The state: the clock \<^verbatim>\<open>time.time()\<close> in milliseconds, how many probes, sleeps and
  requests were made, the files on disk, and the requests and sleeps in the order they
  happened.
\<close>

record state =
  now :: nat
  probes :: nat
  sleeps :: nat
  requests :: nat
  files :: "string \<rightharpoonup> bytes"
  log :: "event list"

definition has_internet_connection :: "world \<Rightarrow> state \<Rightarrow> bool \<times> state" where
  "has_internet_connection w s = (probe w (probes s), s\<lparr>probes := Suc (probes s)\<rparr>)"

definition time_sleep :: "world \<Rightarrow> nat \<Rightarrow> state \<Rightarrow> state" where
  "time_sleep w secs s =
     s\<lparr>now := now s + 1000 * secs + overrun w (sleeps s),
       sleeps := Suc (sleeps s),
       log := log s @ [Sleep secs]\<rparr>"

definition requests_get :: "world \<Rightarrow> string \<Rightarrow> state \<Rightarrow> reply \<times> state" where
  "requests_get w url s =
     (serve w url (requests s), s\<lparr>requests := Suc (requests s), log := log s @ [Get url]\<rparr>)"

text \<open>\<^verbatim>\<open>response.raise_for_status()\<close> raises for the status codes 400 to 599.\<close>

definition raise_for_status :: "nat \<Rightarrow> bool" where
  "raise_for_status code = (400 \<le> code \<and> code < 600)"

subsection \<open>The connectivity gate\<close>

text \<open>
  The loop \<^verbatim>\<open>while not has_internet_connection()\<close>: it ends when a probe succeeds, or
  with \<^verbatim>\<open>sys.exit()\<close> when \<^verbatim>\<open>180 - int(elapsed)\<close> is no longer positive. The clock
  does not go back, so \<^verbatim>\<open>int(elapsed)\<close> is the whole seconds since \<open>start_time\<close>.
\<close>

function wait_loop :: "world \<Rightarrow> nat \<Rightarrow> state \<Rightarrow> state outcome" where
  "wait_loop w start_time s =
     (let r = has_internet_connection w s; s1 = snd r
      in if fst r then Returned s1
         else let elapsed = now s1 - start_time;
                  remaining = 180 - int (elapsed div 1000)
              in if remaining \<le> 0 then SystemExit
                 else wait_loop w start_time (time_sleep w 1 s1))"
  by pat_completeness auto
termination
  by (relation "measure (\<lambda>(w, start_time, s). 180000 + start_time - now s)")
     (auto simp: has_internet_connection_def time_sleep_def)

declare wait_loop.simps [simp del]

text \<open>
  The block \<^verbatim>\<open>if not has_internet_connection(): ...\<close> at the head of every attempt.
\<close>

definition await_connection :: "world \<Rightarrow> state \<Rightarrow> state outcome" where
  "await_connection w s =
     (let r = has_internet_connection w s; s1 = snd r
      in if \<not> fst r then wait_loop w (now s1) s1 else Returned s1)"

subsection \<open>The fetcher: \<^verbatim>\<open>attempt_download\<close>\<close>

text \<open>
  The variables of \<^verbatim>\<open>download_pdf\<close> that the nested function declares
  \<^verbatim>\<open>nonlocal\<close>.
\<close>

record locals =
  status_message :: string
  file_size_kb :: pyval

definition max_attempts :: nat where
  "max_attempts = 3"

text \<open>The four \<^verbatim>\<open>except\<close> clauses.\<close>

fun except_status :: "request_exception \<Rightarrow> string" where
  "except_status Timeout = ''Invalid Download (Timeout)''"
| "except_status (HTTPError code) = ''Invalid Download (HTTP Error '' @ str_nat code @ '')''"
| "except_status ConnectionError = ''Invalid Download (Connection Error)''"
| "except_status (RequestException req_err) =
     ''Invalid Download (Other Error: '' @ req_err @ '')''"

text \<open>
  \<^verbatim>\<open>os.path.getsize\<close>: the length of the file, \<^verbatim>\<open>FileNotFoundError\<close> when there
  is none.
\<close>

definition getsize :: "state \<Rightarrow> string \<Rightarrow> nat option" where
  "getsize s path = map_option length (files s path)"

text \<open>
  How the body of the \<^verbatim>\<open>try\<close> statement leaves one pass of the \<^verbatim>\<open>for\<close> loop:
  by \<^verbatim>\<open>break\<close>, by \<^verbatim>\<open>return True\<close>, through one of the handlers (the loop goes on
  to \<^verbatim>\<open>time.sleep(1)\<close>), or with an exception that no handler catches.
\<close>

datatype flow = Break | ReturnTrue | Handled | Raise string

text \<open>
  The \<^verbatim>\<open>try\<close> statement. \<^verbatim>\<open>open(pdf_filename, 'wb')\<close> creates or empties the file
  at the final path, and every chunk received before the stream ends or breaks is in it.
  Opening and writing are taken to succeed: the folder is made at start-up, and an
  \<^verbatim>\<open>OSError\<close> of the disk is outside the model.
\<close>

definition try_request ::
  "world \<Rightarrow> string \<Rightarrow> string \<Rightarrow> state \<times> locals \<Rightarrow> flow \<times> state \<times> locals" where
  "try_request w pdf_filename url st =
     (case st of (s, v) \<Rightarrow>
       (case requests_get w url s of
          (Raises e, s1) \<Rightarrow> (Handled, s1, v\<lparr>status_message := except_status e\<rparr>)
        | (Response code content_type chunks broken, s1) \<Rightarrow>
            if raise_for_status code
            then (Handled, s1, v\<lparr>status_message := except_status (HTTPError code)\<rparr>)
            else if content_type \<noteq> Some ''application/pdf''
            then (Break, s1, v\<lparr>status_message := ''Invalid Download (Not a PDF file)''\<rparr>)
            else
              (let s2 = s1\<lparr>files := (files s1)(pdf_filename \<mapsto> concat chunks)\<rparr>
               in case broken of
                    Some e \<Rightarrow> (Handled, s2, v\<lparr>status_message := except_status e\<rparr>)
                  | None \<Rightarrow>
                      (case getsize s2 pdf_filename of
                         None \<Rightarrow> (Raise ''FileNotFoundError'', s2, v)
                       | Some n \<Rightarrow> (ReturnTrue, s2, v\<lparr>file_size_kb := KB n\<rparr>)))))"

text \<open>The loop \<^verbatim>\<open>for attempt in range(1, max_attempts + 1)\<close> and what follows it.\<close>

fun attempt_loop ::
  "world \<Rightarrow> string \<Rightarrow> string \<Rightarrow> nat list \<Rightarrow> state \<times> locals \<Rightarrow> (bool \<times> state \<times> locals) outcome" where
  "attempt_loop w pdf_filename url [] (s, v) = Returned (False, s, v)"
| "attempt_loop w pdf_filename url (attempt # rest) (s, v) =
     (case await_connection w s of
        SystemExit \<Rightarrow> SystemExit
      | Uncaught e \<Rightarrow> Uncaught e
      | Returned s1 \<Rightarrow>
          (case try_request w pdf_filename url (s1, v) of
             (ReturnTrue, s2, v2) \<Rightarrow> Returned (True, s2, v2)
           | (Break, s2, v2) \<Rightarrow> Returned (False, s2, v2)
           | (Raise e, s2, v2) \<Rightarrow> Uncaught e
           | (Handled, s2, v2) \<Rightarrow>
               attempt_loop w pdf_filename url rest (time_sleep w 1 s2, v2)))"

definition attempt_download ::
  "world \<Rightarrow> string \<Rightarrow> string \<Rightarrow> state \<times> locals \<Rightarrow> (bool \<times> state \<times> locals) outcome" where
  "attempt_download w pdf_filename url st =
     attempt_loop w pdf_filename url [1..<max_attempts + 1] st"

subsection \<open>The download task: \<^verbatim>\<open>download_pdf\<close>\<close>

text \<open>
  A row of \<^verbatim>\<open>df_fixed\<close>: its index \<^verbatim>\<open>BRnum\<close> and the two columns the task reads.
  \<open>None\<close> is a blank cell (NaN), or for the second column a column that is not there.
\<close>

record row =
  name :: nat
  Pdf_URL :: "string option"
  Report_Html_Address :: "string option"

definition pdf_download_folder :: string where
  "pdf_download_folder = ''PDF Downloads''"

text \<open>The condition \<^verbatim>\<open>pd.notna(u) and u and attempt_download(u)\<close>.\<close>

definition notna_and_attempt ::
  "world \<Rightarrow> string \<Rightarrow> string option \<Rightarrow> state \<times> locals \<Rightarrow> (bool \<times> state \<times> locals) outcome" where
  "notna_and_attempt w pdf_filename u st =
     (case u of
        None \<Rightarrow> Returned (False, st)
      | Some url \<Rightarrow> if url = [] then Returned (False, st)
                    else attempt_download w pdf_filename url st)"

text \<open>
  \<^verbatim>\<open>return brnum, status_message, f"{file_size_kb:.2f} KB"\<close>: the format raises
  \<^verbatim>\<open>ValueError\<close> on a string.
\<close>

definition return_formatted ::
  "nat \<Rightarrow> state \<Rightarrow> locals \<Rightarrow> (state \<times> nat \<times> string \<times> pyval) outcome" where
  "return_formatted brnum s v =
     (case file_size_kb v of
        KB n \<Rightarrow> Returned (s, brnum, status_message v, Str (format_2f n @ '' KB''))
      | Str x \<Rightarrow> Uncaught ''ValueError'')"

definition download_pdf ::
  "world \<Rightarrow> state \<Rightarrow> row \<Rightarrow> (state \<times> nat \<times> string \<times> pyval) outcome" where
  "download_pdf w s r =
     (let brnum = name r;
          pdf_url = Pdf_URL r;
          alt_url = Report_Html_Address r;
          pdf_filename = pdf_download_folder @ ''/'' @ str_nat brnum @ ''.pdf'';
          v = \<lparr>status_message = ''Downloadet'', file_size_kb = Str ''N/A''\<rparr>
      in case notna_and_attempt w pdf_filename pdf_url (s, v) of
           SystemExit \<Rightarrow> SystemExit
         | Uncaught e \<Rightarrow> Uncaught e
         | Returned (True, s1, v1) \<Rightarrow> return_formatted brnum s1 v1
         | Returned (False, s1, v1) \<Rightarrow>
             (case notna_and_attempt w pdf_filename alt_url (s1, v1) of
                SystemExit \<Rightarrow> SystemExit
              | Uncaught e \<Rightarrow> Uncaught e
              | Returned (True, s2, v2) \<Rightarrow> return_formatted brnum s2 v2
              | Returned (False, s2, v2) \<Rightarrow>
                  Returned (s2, brnum, status_message v2, file_size_kb v2)))"

subsection \<open>Selection, batch size and the status frame\<close>

text \<open>
  A row of \<^verbatim>\<open>download_status_df\<close>, found by its \<^verbatim>\<open>BRnum\<close>. The column
  \<^verbatim>\<open>File Size\<close> is blank (\<open>None\<close>) until a result is written into it.
\<close>

record entry =
  Download_Status :: string
  File_Size :: "pyval option"

type_synonym status_frame = "nat \<rightharpoonup> entry"

text \<open>The frame built when \<^verbatim>\<open>download_status.xlsx\<close> does not exist yet.\<close>

definition new_status_frame :: "row list \<Rightarrow> status_frame" where
  "new_status_frame df_fixed =
     map_of (map (\<lambda>r. (name r, \<lparr>Download_Status = ''Ikke downloadet'', File_Size = None\<rparr>))
                 df_fixed)"

text \<open>
  The boolean mask \<^verbatim>\<open>df_fixed['Pdf_URL'].notna() & (download_status_df['Download Status']
  == 'Ikke downloadet')\<close>, the two frames having the same index; a \<^verbatim>\<open>BRnum\<close> that the
  status frame lacks compares as false.
\<close>

definition downloadable_rows :: "row list \<Rightarrow> status_frame \<Rightarrow> row list" where
  "downloadable_rows df_fixed download_status_df =
     filter (\<lambda>r. Pdf_URL r \<noteq> None \<and>
                  (case download_status_df (name r) of
                     None \<Rightarrow> False
                   | Some e \<Rightarrow> Download_Status e = ''Ikke downloadet''))
            df_fixed"

text \<open>
  \<^verbatim>\<open>int(input(...) or 20)\<close> under \<^verbatim>\<open>except ValueError\<close>. Python's \<^verbatim>\<open>int\<close> on a
  string is the parameter \<open>int_of\<close>: \<open>None\<close> where it raises \<^verbatim>\<open>ValueError\<close>.
\<close>

definition num_pdfs_to_download :: "(string \<Rightarrow> int option) \<Rightarrow> string \<Rightarrow> int" where
  "num_pdfs_to_download int_of typed =
     (if typed = [] then 20
      else case int_of typed of Some n \<Rightarrow> n | None \<Rightarrow> 20)"

text \<open>\<^verbatim>\<open>DataFrame.head(n)\<close>, which is \<^verbatim>\<open>iloc[:n]\<close>.\<close>

definition head :: "int \<Rightarrow> 'a list \<Rightarrow> 'a list" where
  "head n xs = (if 0 \<le> n then take (nat n) xs else take (length xs - nat (- n)) xs)"

definition selected_rows ::
  "(string \<Rightarrow> int option) \<Rightarrow> string \<Rightarrow> row list \<Rightarrow> status_frame \<Rightarrow> row list" where
  "selected_rows int_of typed df_fixed download_status_df =
     head (num_pdfs_to_download int_of typed) (downloadable_rows df_fixed download_status_df)"

text \<open>
  The loop \<^verbatim>\<open>for future in as_completed(futures)\<close> over the futures in the order they
  complete. \<^verbatim>\<open>future.result()\<close> returns the tuple of the task or raises in the main
  thread what the task raised; then nothing more is written and the frame is not saved.
\<close>

fun as_completed_loop ::
  "status_frame \<Rightarrow> (nat \<times> string \<times> pyval) outcome list \<Rightarrow> status_frame outcome" where
  "as_completed_loop download_status_df [] = Returned download_status_df"
| "as_completed_loop download_status_df (Returned (brnum, result_status, file_size) # futures) =
     as_completed_loop
       (download_status_df
          (brnum \<mapsto> \<lparr>Download_Status = result_status, File_Size = Some file_size\<rparr>))
       futures"
| "as_completed_loop download_status_df (SystemExit # futures) = SystemExit"
| "as_completed_loop download_status_df (Uncaught e # futures) = Uncaught e"

text \<open>What the future of a task holds: the tuple it returned, or what it raised.\<close>

fun future_of :: "(state \<times> nat \<times> string \<times> pyval) outcome \<Rightarrow> (nat \<times> string \<times> pyval) outcome" where
  "future_of (Returned (s, result)) = Returned result"
| "future_of SystemExit = SystemExit"
| "future_of (Uncaught e) = Uncaught e"

subsection \<open>Predicates of the statements\<close>

text \<open>
  A reply that reaches \<^verbatim>\<open>open(pdf_filename, 'wb')\<close>: a response that passes
  \<^verbatim>\<open>raise_for_status\<close> and whose \<^verbatim>\<open>Content-Type\<close> is exactly
  \<^verbatim>\<open>application/pdf\<close>.
\<close>

fun delivers_pdf :: "reply \<Rightarrow> bool" where
  "delivers_pdf (Raises e) = False"
| "delivers_pdf (Response code content_type chunks broken) =
     (\<not> raise_for_status code \<and> content_type = Some ''application/pdf'')"

text \<open>
  The statuses a task can return: \<^verbatim>\<open>'Downloadet'\<close>, or a string that starts with
  \<^verbatim>\<open>'Invalid Download ('\<close>.
\<close>

definition terminal_status :: "string \<Rightarrow> bool" where
  "terminal_status st = (st = ''Downloadet'' \<or> take 18 st = ''Invalid Download ('')"

text \<open>
  The futures of \<^verbatim>\<open>executor.submit(download_pdf, row)\<close>, listed in the order in which
  they complete. Every task comes with the world and the state it runs in: what the other
  threads do meanwhile is part of both, and no task reads what another one returns.
\<close>

definition futures_of ::
  "(world \<times> state \<times> row) list \<Rightarrow> (nat \<times> string \<times> pyval) outcome list" where
  "futures_of tasks = map (\<lambda>(w, s, r). future_of (download_pdf w s r)) tasks"

text \<open>
  The monitor reports offline for the whole wait window that opens in state \<open>s\<close>: the check
  at the head of the attempt and every poll of the countdown fail. The countdown polls at
  most 181 times, since it sleeps at least one second after each poll and stops at the first
  poll that finds 180 whole seconds elapsed.
\<close>

definition offline_window :: "world \<Rightarrow> state \<Rightarrow> bool" where
  "offline_window w s = (\<forall>k \<in> {probes s .. probes s + 181}. \<not> probe w k)"

text \<open>
  The states in which the attempts of one call of \<^verbatim>\<open>attempt_download\<close> begin, in order:
  the loop goes on to a next attempt only after a handled exception and its sleep.
\<close>

fun attempt_heads ::
  "world \<Rightarrow> string \<Rightarrow> string \<Rightarrow> nat list \<Rightarrow> state \<times> locals \<Rightarrow> state list" where
  "attempt_heads w pdf_filename url [] (s, v) = []"
| "attempt_heads w pdf_filename url (attempt # rest) (s, v) =
     s # (case await_connection w s of
            Returned s1 \<Rightarrow>
              (case try_request w pdf_filename url (s1, v) of
                 (Handled, s2, v2) \<Rightarrow>
                   attempt_heads w pdf_filename url rest (time_sleep w 1 s2, v2)
               | (other, s2, v2) \<Rightarrow> [])
          | other \<Rightarrow> [])"



subsection \<open>Concrete scenarios\<close>

text \<open>A fresh state: the clock at zero, nothing done, no file on disk.\<close>

definition fresh :: state where
  "fresh = \<lparr>now = 0, probes = 0, sleeps = 0, requests = 0, files = Map.empty, log = []\<rparr>"

text \<open>
  A world that is always online, where the server of \<^verbatim>\<open>http://a/7.pdf\<close> answers 404 with
  an HTML page and every other URL delivers an eleven-byte PDF in two chunks.
\<close>

definition world_404_then_pdf :: world where
  "world_404_then_pdf =
     \<lparr>probe = (\<lambda>k. True),
      serve = (\<lambda>url k.
        if url = ''http://a/7.pdf'' then Response 404 (Some ''text/html'') [] None
        else Response 200 (Some ''application/pdf'') [''%PDF-1.4'', ''abc''] None),
      overrun = (\<lambda>k. 0)\<rparr>"

definition row_7 :: row where
  "row_7 = \<lparr>name = 7, Pdf_URL = Some ''http://a/7.pdf'',
            Report_Html_Address = Some ''http://b/7.pdf''\<rparr>"

definition row_empty_url :: row where
  "row_empty_url = \<lparr>name = 9, Pdf_URL = Some [], Report_Html_Address = None\<rparr>"

definition row_fallback_only :: row where
  "row_fallback_only =
     \<lparr>name = 3, Pdf_URL = None, Report_Html_Address = Some ''http://b/3.pdf''\<rparr>"

definition row_8 :: row where
  "row_8 = \<lparr>name = 8, Pdf_URL = Some ''http://a/8.pdf'', Report_Html_Address = None\<rparr>"

text \<open>
  A reader of decimal numerals, an optional minus sign and ASCII digits: strings on which
  Python's \<^verbatim>\<open>int\<close> gives the same number, and \<open>None\<close> elsewhere. It stands for the
  parameter \<open>int_of\<close> in the scenarios.
\<close>

fun digits_value :: "string \<Rightarrow> nat \<Rightarrow> nat option" where
  "digits_value [] acc = Some acc"
| "digits_value (c # cs) acc =
     (if c \<in> set ''0123456789''
      then digits_value cs (10 * acc + (of_char c - 48))
      else None)"

definition decimal :: "string \<Rightarrow> int option" where
  "decimal typed =
     (case typed of
        [] \<Rightarrow> None
      | c # cs \<Rightarrow>
          if c = CHR ''-''
          then (if cs = [] then None else map_option (\<lambda>n. - int n) (digits_value cs 0))
          else map_option int (digits_value typed 0))"

text \<open>The variables of a task before its first attempt.\<close>

definition initial_locals :: locals where
  "initial_locals = \<lparr>status_message = ''Downloadet'', file_size_kb = Str ''N/A''\<rparr>"

text \<open>
  Further worlds, all with exact sleeps: never online; always online with every request
  timing out; always online with an HTML page for every URL; always online with a PDF
  response whose stream breaks after the first chunk; always online with an eleven-byte PDF
  for every URL.
\<close>

definition world_offline :: world where
  "world_offline =
     \<lparr>probe = (\<lambda>k. False), serve = (\<lambda>url k. Raises ConnectionError), overrun = (\<lambda>k. 0)\<rparr>"

definition world_timeout :: world where
  "world_timeout =
     \<lparr>probe = (\<lambda>k. True), serve = (\<lambda>url k. Raises Timeout), overrun = (\<lambda>k. 0)\<rparr>"

definition world_html :: world where
  "world_html =
     \<lparr>probe = (\<lambda>k. True),
      serve = (\<lambda>url k. Response 200 (Some ''text/html'') [''<html>''] None),
      overrun = (\<lambda>k. 0)\<rparr>"

definition world_broken_stream :: world where
  "world_broken_stream =
     \<lparr>probe = (\<lambda>k. True),
      serve = (\<lambda>url k. Response 200 (Some ''application/pdf'') [''%PDF-1.4'']
                          (Some ConnectionError)),
      overrun = (\<lambda>k. 0)\<rparr>"

definition world_pdf :: world where
  "world_pdf =
     \<lparr>probe = (\<lambda>k. True),
      serve = (\<lambda>url k. Response 200 (Some ''application/pdf'') [''%PDF-1.4'', ''abc''] None),
      overrun = (\<lambda>k. 0)\<rparr>"

text \<open>
  A world that is online at the first check only and where every request times out, and the
  state in which the second attempt of \<^verbatim>\<open>http://a/7.pdf\<close> then begins.
\<close>

definition world_timeout_then_offline :: world where
  "world_timeout_then_offline =
     \<lparr>probe = (\<lambda>k. k = 0), serve = (\<lambda>url k. Raises Timeout), overrun = (\<lambda>k. 0)\<rparr>"

definition second_head :: state where
  "second_head =
     \<lparr>now = 1000, probes = 1, sleeps = 1, requests = 1, files = Map.empty,
      log = [Get ''http://a/7.pdf'', Sleep 1]\<rparr>"

section \<open>Properties\<close>

subsection \<open>Auxiliary facts\<close>

text \<open>
  Waiting for the connection touches neither the files nor the request counter, and adds
  only one-second sleeps to the log.
\<close>

lemma wait_loop_Returned:
  "wait_loop w start_time s = Returned s1 \<Longrightarrow>
     files s1 = files s \<and> requests s1 = requests s \<and>
     (\<exists>n. log s1 = log s @ replicate n (Sleep 1))"
proof (induction w start_time s rule: wait_loop.induct)
  case (1 w start_time s)
  let ?p = "s\<lparr>probes := Suc (probes s)\<rparr>"
  show ?case
  proof (cases "probe w (probes s)")
    case True
    with "1.prems" have "s1 = ?p"
      by (simp add: wait_loop.simps [of w start_time s] has_internet_connection_def)
    then show ?thesis by simp
  next
    case False
    show ?thesis
    proof (cases "180 - int ((now s - start_time) div 1000) \<le> 0")
      case True
      with False "1.prems" show ?thesis
        by (simp add: wait_loop.simps [of w start_time s] has_internet_connection_def Let_def)
    next
      case gt: False
      with False "1.prems" have rec: "wait_loop w start_time (time_sleep w 1 ?p) = Returned s1"
        by (simp add: wait_loop.simps [of w start_time s] has_internet_connection_def Let_def
                 del: One_nat_def)
      have "files s1 = files (time_sleep w 1 ?p) \<and> requests s1 = requests (time_sleep w 1 ?p) \<and>
            (\<exists>n. log s1 = log (time_sleep w 1 ?p) @ replicate n (Sleep 1))"
        using False gt rec
        by (intro "1.IH" [where x = "has_internet_connection w s" and xa = ?p]) 
           (auto simp: has_internet_connection_def)
      then obtain n where "files s1 = files s" "requests s1 = requests s"
          "log s1 = log s @ Sleep 1 # replicate n (Sleep 1)"
        by (auto simp: time_sleep_def)
      then have "log s1 = log s @ replicate (Suc n) (Sleep 1)" by simp
      with \<open>files s1 = files s\<close> \<open>requests s1 = requests s\<close> show ?thesis by blast
    qed
  qed
qed

lemma wait_loop_not_Uncaught: "wait_loop w start_time s \<noteq> Uncaught e"
proof (induction w start_time s rule: wait_loop.induct)
  case (1 w start_time s)
  show ?case
    using "1.IH" [where x = "has_internet_connection w s" and xa = "snd (has_internet_connection w s)"]
    by (subst wait_loop.simps) (auto simp: Let_def)
qed

lemma await_connection_Returned:
  "await_connection w s = Returned s1 \<Longrightarrow>
     files s1 = files s \<and> requests s1 = requests s \<and>
     (\<exists>n. log s1 = log s @ replicate n (Sleep 1))"
  by (auto simp: await_connection_def has_internet_connection_def Let_def
           split: if_splits dest!: wait_loop_Returned)

lemma await_connection_not_Uncaught: "await_connection w s \<noteq> Uncaught e"
  by (simp add: await_connection_def Let_def wait_loop_not_Uncaught)

lemma attempts_list: "[1..<max_attempts + 1] = [1, 2, 3]"
  by (simp add: max_attempts_def upt_rec)

lemma terminal_except_status: "terminal_status (except_status e)"
  by (cases e) (simp_all add: terminal_status_def)

lemma terminal_not_pdf: "terminal_status ''Invalid Download (Not a PDF file)''"
  by (simp add: terminal_status_def)

lemma terminal_not_pending: "terminal_status st \<Longrightarrow> st \<noteq> ''Ikke downloadet''"
  by (auto simp: terminal_status_def)

lemma try_request_no_Raise: "fst (try_request w pdf_filename url st) \<noteq> Raise e"
  by (auto simp: try_request_def requests_get_def getsize_def Let_def
           split: prod.splits reply.splits option.splits)

lemma try_request_log:
  "try_request w pdf_filename url (s, v) = (fl, s2, v2) \<Longrightarrow>
     requests s2 = Suc (requests s) \<and> log s2 = log s @ [Get url] \<and>
     sleeps s2 = sleeps s \<and> now s2 = now s \<and> probes s2 = probes s"
  by (auto simp: try_request_def requests_get_def getsize_def Let_def
           split: reply.splits option.splits if_splits)

lemma try_request_frame:
  "try_request w pdf_filename url (s, v) = (fl, s2, v2) \<Longrightarrow> p \<noteq> pdf_filename \<Longrightarrow>
     files s2 p = files s p"
  by (auto simp: try_request_def requests_get_def getsize_def Let_def
           split: reply.splits option.splits if_splits)

lemma try_request_unchanged:
  "try_request w pdf_filename url (s, v) = (fl, s2, v2) \<Longrightarrow>
   \<not> delivers_pdf (serve w url (requests s)) \<Longrightarrow> files s2 = files s"
  by (auto simp: try_request_def requests_get_def getsize_def Let_def
           split: reply.splits option.splits if_splits)

lemma try_request_ReturnTrue:
  "try_request w pdf_filename url (s, v) = (ReturnTrue, s2, v2) \<Longrightarrow>
     \<exists>code chunks.
       serve w url (requests s) = Response code (Some ''application/pdf'') chunks None \<and>
       \<not> raise_for_status code \<and>
       files s2 pdf_filename = Some (concat chunks) \<and>
       file_size_kb v2 = KB (length (concat chunks)) \<and>
       status_message v2 = status_message v"
  by (auto simp: try_request_def requests_get_def getsize_def Let_def
           split: reply.splits option.splits if_splits)

lemma try_request_status:
  "try_request w pdf_filename url (s, v) = (fl, s2, v2) \<Longrightarrow>
   terminal_status (status_message v) \<Longrightarrow> terminal_status (status_message v2)"
  by (auto simp: try_request_def requests_get_def getsize_def Let_def terminal_except_status
           terminal_not_pdf
           simp del: except_status.simps
           split: reply.splits option.splits if_splits)

lemma attempt_loop_not_Uncaught:
  "attempt_loop w pdf_filename url attempts (s, v) \<noteq> Uncaught e"
proof (induction attempts arbitrary: s v)
  case Nil
  show ?case by simp
next
  case (Cons a attempts)
  show ?case
    using Cons.IH try_request_no_Raise [of w pdf_filename url] await_connection_not_Uncaught [of w s]
    by (auto split: outcome.splits prod.splits flow.splits)
       (metis fst_conv)+
qed

lemma attempt_loop_Cons_Returned:
  assumes "attempt_loop w pdf_filename url (a # attempts) (s, v) = Returned (ok, s', v')"
  obtains s1 fl s2 v2 where
    "await_connection w s = Returned s1"
    "try_request w pdf_filename url (s1, v) = (fl, s2, v2)"
    "fl = ReturnTrue \<and> ok \<and> s' = s2 \<and> v' = v2 \<or>
     fl = Break \<and> \<not> ok \<and> s' = s2 \<and> v' = v2 \<or>
     fl = Handled \<and>
       attempt_loop w pdf_filename url attempts (time_sleep w 1 s2, v2) = Returned (ok, s', v')"
  using assms by (auto split: outcome.splits prod.splits flow.splits)

lemma files_time_sleep: "files (time_sleep w secs s) = files s"
  by (simp add: time_sleep_def)

lemma attempt_loop_status:
  "attempt_loop w pdf_filename url attempts (s, v) = Returned (ok, s', v') \<Longrightarrow>
   terminal_status (status_message v) \<Longrightarrow> terminal_status (status_message v')"
proof (induction attempts arbitrary: s v)
  case Nil
  then show ?case by simp
next
  case (Cons a attempts)
  from Cons.prems(1) obtain s1 fl s2 v2 where
    t: "try_request w pdf_filename url (s1, v) = (fl, s2, v2)" and
    c: "fl = ReturnTrue \<and> ok \<and> s' = s2 \<and> v' = v2 \<or>
        fl = Break \<and> \<not> ok \<and> s' = s2 \<and> v' = v2 \<or>
        fl = Handled \<and>
          attempt_loop w pdf_filename url attempts (time_sleep w 1 s2, v2) = Returned (ok, s', v')"
    by (rule attempt_loop_Cons_Returned)
  have "terminal_status (status_message v2)"
    using t Cons.prems(2) by (rule try_request_status)
  with c Cons.IH show ?case by blast
qed

lemma attempt_loop_files:
  "attempt_loop w pdf_filename url attempts (s, v) = Returned (ok, s', v') \<Longrightarrow>
     (\<forall>p. p \<noteq> pdf_filename \<longrightarrow> files s' p = files s p) \<and>
     ((\<forall>k. \<not> delivers_pdf (serve w url k)) \<longrightarrow> files s' = files s) \<and>
     (ok \<longrightarrow>
        (\<exists>code chunks k.
           serve w url k = Response code (Some ''application/pdf'') chunks None \<and>
           \<not> raise_for_status code \<and>
           files s' pdf_filename = Some (concat chunks) \<and>
           file_size_kb v' = KB (length (concat chunks))))"
proof (induction attempts arbitrary: s v)
  case Nil
  then show ?case by simp
next
  case (Cons a attempts)
  from Cons.prems obtain s1 fl s2 v2 where
    a: "await_connection w s = Returned s1" and
    t: "try_request w pdf_filename url (s1, v) = (fl, s2, v2)" and
    c: "fl = ReturnTrue \<and> ok \<and> s' = s2 \<and> v' = v2 \<or>
        fl = Break \<and> \<not> ok \<and> s' = s2 \<and> v' = v2 \<or>
        fl = Handled \<and>
          attempt_loop w pdf_filename url attempts (time_sleep w 1 s2, v2) = Returned (ok, s', v')"
    by (rule attempt_loop_Cons_Returned)
  have f1: "files s1 = files s"
    using await_connection_Returned [OF a] by simp
  have frame: "\<forall>p. p \<noteq> pdf_filename \<longrightarrow> files s2 p = files s p"
    using try_request_frame [OF t] f1 by simp
  have unch: "(\<forall>k. \<not> delivers_pdf (serve w url k)) \<longrightarrow> files s2 = files s"
    using try_request_unchanged [OF t] f1 by simp
  from c show ?case
  proof (elim disjE conjE)
    assume "fl = ReturnTrue" ok "s' = s2" "v' = v2"
    with try_request_ReturnTrue [of w pdf_filename url s1 v s2 v2] t frame unch
    show ?thesis by auto
  next
    assume "fl = Break" "\<not> ok" "s' = s2" "v' = v2"
    with frame unch show ?thesis by simp
  next
    assume "fl = Handled"
      and r: "attempt_loop w pdf_filename url attempts (time_sleep w 1 s2, v2) = Returned (ok, s', v')"
    from Cons.IH [OF r] frame unch show ?thesis
      by (simp add: files_time_sleep)
  qed
qed

lemma notna_and_attempt_not_Uncaught:
  "notna_and_attempt w pdf_filename u (s, v) \<noteq> Uncaught e"
  by (auto simp: notna_and_attempt_def attempt_download_def attempt_loop_not_Uncaught
           split: option.splits)

lemma notna_and_attempt_Returned:
  assumes "notna_and_attempt w pdf_filename u (s, v) = Returned (ok, s', v')"
    and "terminal_status (status_message v)"
  shows "terminal_status (status_message v') \<and> (ok \<longrightarrow> (\<exists>n. file_size_kb v' = KB n))"
proof (cases "u = None \<or> u = Some []")
  case True
  with assms show ?thesis by (auto simp: notna_and_attempt_def)
next
  case False
  then obtain url where "u = Some url" "url \<noteq> []" by auto
  with assms(1) have
    l: "attempt_loop w pdf_filename url [1..<max_attempts + 1] (s, v) = Returned (ok, s', v')"
    by (simp add: notna_and_attempt_def attempt_download_def)
  from attempt_loop_status [OF l assms(2)] attempt_loop_files [OF l]
  show ?thesis by blast
qed

lemma download_pdf_total:
  "download_pdf w s r = SystemExit \<or>
   (\<exists>s' st sz. download_pdf w s r = Returned (s', name r, st, sz) \<and> terminal_status st)"
proof -
  let ?fn = "pdf_download_folder @ ''/'' @ str_nat (name r) @ ''.pdf''"
  let ?v = "\<lparr>status_message = ''Downloadet'', file_size_kb = Str ''N/A''\<rparr>"
  have t0: "terminal_status (status_message ?v)" by (simp add: terminal_status_def)
  show ?thesis
  proof (cases "notna_and_attempt w ?fn (Pdf_URL r) (s, ?v)")
    case SystemExit
    then show ?thesis by (simp add: download_pdf_def)
  next
    case (Uncaught e)
    then show ?thesis by (simp add: notna_and_attempt_not_Uncaught)
  next
    case (Returned res)
    then obtain ok s1 v1 where
      p: "notna_and_attempt w ?fn (Pdf_URL r) (s, ?v) = Returned (ok, s1, v1)"
      by (cases res) auto
    note p1 = notna_and_attempt_Returned [OF p t0]
    show ?thesis
    proof (cases ok)
      case True
      with p1 obtain n where "file_size_kb v1 = KB n" by blast
      with p True p1 show ?thesis
        by (simp add: download_pdf_def return_formatted_def)
    next
      case False
      show ?thesis
      proof (cases "notna_and_attempt w ?fn (Report_Html_Address r) (s1, v1)")
        case SystemExit
        with p False show ?thesis by (simp add: download_pdf_def)
      next
        case (Uncaught e)
        then show ?thesis by (simp add: notna_and_attempt_not_Uncaught)
      next
        case (Returned res2)
        then obtain ok2 s2 v2 where
          q: "notna_and_attempt w ?fn (Report_Html_Address r) (s1, v1) = Returned (ok2, s2, v2)"
          by (cases res2) auto
        have t1: "terminal_status (status_message v1)" using p1 by simp
        note q1 = notna_and_attempt_Returned [OF q t1]
        show ?thesis
        proof (cases ok2)
          case True
          with q1 obtain n where "file_size_kb v2 = KB n" by blast
          with p q False True q1 show ?thesis
            by (simp add: download_pdf_def return_formatted_def)
        next
          case f2: False
          with p q False q1 show ?thesis
            by (simp add: download_pdf_def)
        qed
      qed
    qed
  qed
qed

subsection \<open>The download task\<close>

text \<open>
  C1. The claim: when the primary URL fails with an HTTP error and the fallback URL yields
  a valid PDF, \<^verbatim>\<open>download_pdf\<close> returns the success status with the size of the fallback
  download. The code does not: \<^verbatim>\<open>status_message\<close> is set by the handlers of the failed
  primary attempts and is never set back when a later attempt succeeds. On the row whose
  primary URL answers 404 three times and whose fallback URL delivers an eleven-byte PDF, the
  task returns the status of the primary failure next to the size of the fallback file, after
  four requests, with the fallback body on disk.
\<close>

theorem download_pdf_fallback_keeps_primary_status:
  "(case download_pdf world_404_then_pdf fresh row_7 of
      Returned (s, result) \<Rightarrow>
        result = (7, ''Invalid Download (HTTP Error 404)'', Str ''0.01 KB'') \<and>
        requests s = 4 \<and>
        log s = [Get ''http://a/7.pdf'', Sleep 1, Get ''http://a/7.pdf'', Sleep 1,
                 Get ''http://a/7.pdf'', Sleep 1, Get ''http://b/7.pdf''] \<and>
        files s ''PDF Downloads/7.pdf'' = Some ''%PDF-1.4abc''
    | SystemExit \<Rightarrow> False
    | Uncaught e \<Rightarrow> False)"
  by code_simp

text \<open>
  C9. A row whose primary URL is the empty string, and whose fallback URL is blank, absent
  or empty, is answered without any request: the state is returned as it was, the status is
  the initial \<^verbatim>\<open>'Downloadet'\<close> and the size is \<^verbatim>\<open>'N/A'\<close>. The collecting loop
  then writes exactly that into the status frame.
\<close>

theorem download_pdf_empty_url:
  assumes "Pdf_URL r = Some []"
    and "Report_Html_Address r = None \<or> Report_Html_Address r = Some []"
  shows "download_pdf w s r = Returned (s, name r, ''Downloadet'', Str ''N/A'') \<and>
         as_completed_loop L (futures_of [(w, s, r)]) =
           Returned (L(name r \<mapsto>
             \<lparr>Download_Status = ''Downloadet'', File_Size = Some (Str ''N/A'')\<rparr>))"
proof -
  from assms have "download_pdf w s r = Returned (s, name r, ''Downloadet'', Str ''N/A'')"
    by (auto simp: download_pdf_def notna_and_attempt_def)
  then show ?thesis by (simp add: futures_of_def)
qed

theorem download_pdf_empty_url_witness:
  "Pdf_URL row_empty_url = Some [] \<and> Report_Html_Address row_empty_url = None \<and>
   row_empty_url \<in> set (downloadable_rows [row_empty_url] (new_status_frame [row_empty_url])) \<and>
   download_pdf world_404_then_pdf fresh row_empty_url =
     Returned (fresh, 9, ''Downloadet'', Str ''N/A'') \<and>
   as_completed_loop (new_status_frame [row_empty_url])
       (futures_of [(world_404_then_pdf, fresh, row_empty_url)]) =
     Returned ((new_status_frame [row_empty_url])(9 \<mapsto>
       \<lparr>Download_Status = ''Downloadet'', File_Size = Some (Str ''N/A'')\<rparr>))"
  using download_pdf_empty_url [of row_empty_url world_404_then_pdf fresh
          "new_status_frame [row_empty_url]"]
  by (simp add: row_empty_url_def downloadable_rows_def new_status_frame_def)

subsection \<open>Selection and batch size\<close>

lemma set_head: "set (head n xs) \<subseteq> set xs"
  by (auto simp: head_def dest: in_set_takeD)

text \<open>
  C2, the claim as stated fails: a row with a blank primary URL, a fallback URL and the
  status \<^verbatim>\<open>'Ikke downloadet'\<close> is not among the downloadable rows, because the mask
  tests \<^verbatim>\<open>Pdf_URL\<close> only.
\<close>

theorem downloadable_rows_fallback_only_counterexample:
  "Pdf_URL row_fallback_only = None \<and>
   Report_Html_Address row_fallback_only = Some ''http://b/3.pdf'' \<and>
   map_option Download_Status (new_status_frame [row_fallback_only] (name row_fallback_only))
     = Some ''Ikke downloadet'' \<and>
   downloadable_rows [row_fallback_only] (new_status_frame [row_fallback_only]) = []"
  by (simp add: row_fallback_only_def new_status_frame_def downloadable_rows_def)

text \<open>
  C2, amended. A row is a candidate exactly when it is a row of the spreadsheet, its primary
  URL cell is not blank and its status is \<^verbatim>\<open>'Ikke downloadet'\<close>; the fallback URL plays no
  part. Every selected row is a candidate, so a row with any other status is never selected.
\<close>

theorem downloadable_rows_iff:
  "(r \<in> set (downloadable_rows df L) \<longleftrightarrow>
      r \<in> set df \<and> Pdf_URL r \<noteq> None \<and>
      map_option Download_Status (L (name r)) = Some ''Ikke downloadet'') \<and>
   (r \<in> set (selected_rows int_of typed df L) \<longrightarrow>
      r \<in> set (downloadable_rows df L))"
  using set_head [of "num_pdfs_to_download int_of typed" "downloadable_rows df L"]
  by (auto simp: downloadable_rows_def selected_rows_def split: option.splits)

theorem downloadable_rows_iff_witness:
  "row_7 \<in> set (downloadable_rows [row_fallback_only, row_7]
                   (new_status_frame [row_fallback_only, row_7])) \<and>
   row_7 \<in> set (selected_rows decimal ''5'' [row_fallback_only, row_7]
                   (new_status_frame [row_fallback_only, row_7])) \<and>
   row_fallback_only \<notin> set (downloadable_rows [row_fallback_only, row_7]
                   (new_status_frame [row_fallback_only, row_7]))"
  using downloadable_rows_iff [of row_7 "[row_fallback_only, row_7]"
          "new_status_frame [row_fallback_only, row_7]" decimal "''5''"]
        downloadable_rows_iff [of row_fallback_only "[row_fallback_only, row_7]"
          "new_status_frame [row_fallback_only, row_7]" decimal "''5''"]
  by (simp add: row_7_def row_fallback_only_def new_status_frame_def selected_rows_def
        num_pdfs_to_download_def decimal_def head_def downloadable_rows_def)

text \<open>
  C10. The prompt gives the default 20 when the input is empty or \<^verbatim>\<open>int\<close> raises
  \<^verbatim>\<open>ValueError\<close>, and otherwise the integer read, whatever it is. For a negative \<open>n\<close> the
  selection is the candidates without their last \<open>\<bar>n\<bar>\<close> rows; for \<open>n \<ge> 0\<close> it is the first
  \<open>n\<close> candidates.
\<close>

theorem num_pdfs_to_download_cases:
  "(typed = [] \<or> int_of typed = None \<longrightarrow> num_pdfs_to_download int_of typed = 20) \<and>
   (typed \<noteq> [] \<and> int_of typed = Some n \<longrightarrow>
      num_pdfs_to_download int_of typed = n \<and>
      (n < 0 \<longrightarrow>
         selected_rows int_of typed df L =
           take (length (downloadable_rows df L) - nat \<bar>n\<bar>) (downloadable_rows df L)) \<and>
      (0 \<le> n \<longrightarrow>
         selected_rows int_of typed df L = take (nat n) (downloadable_rows df L)))"
  by (auto simp: num_pdfs_to_download_def selected_rows_def head_def)

theorem num_pdfs_to_download_cases_witness:
  "decimal ''-1'' = Some (- 1) \<and>
   num_pdfs_to_download decimal ''-1'' = - 1 \<and>
   downloadable_rows [row_7, row_8] (new_status_frame [row_7, row_8]) = [row_7, row_8] \<and>
   selected_rows decimal ''-1'' [row_7, row_8] (new_status_frame [row_7, row_8]) = [row_7] \<and>
   decimal ''abc'' = None \<and>
   num_pdfs_to_download decimal ''abc'' = 20 \<and>
   num_pdfs_to_download decimal [] = 20"
  using num_pdfs_to_download_cases [of "''-1''" decimal "- 1" "[row_7, row_8]"
          "new_status_frame [row_7, row_8]"]
        num_pdfs_to_download_cases [of "''abc''" decimal 0 "[]" Map.empty]
        num_pdfs_to_download_cases [of "[]" decimal 0 "[]" Map.empty]
  by (simp add: decimal_def row_7_def row_8_def new_status_frame_def downloadable_rows_def)

subsection \<open>Auxiliary facts on the attempts and on the collecting loop\<close>

lemma attempt_download_unfold:
  "attempt_download w pdf_filename url st = attempt_loop w pdf_filename url [1, 2, 3] st"
  unfolding attempt_download_def attempts_list ..

lemma wait_loop_offline:
  "\<forall>k. \<not> probe w k \<Longrightarrow> wait_loop w start_time s = SystemExit"
proof (induction w start_time s rule: wait_loop.induct)
  case (1 w start_time s)
  show ?case
    using "1.prems"
      "1.IH" [where x = "has_internet_connection w s" and xa = "snd (has_internet_connection w s)"]
    by (subst wait_loop.simps) (auto simp: Let_def has_internet_connection_def)
qed

lemma await_connection_offline:
  "\<forall>k. \<not> probe w k \<Longrightarrow> await_connection w s = SystemExit"
  by (simp add: await_connection_def Let_def has_internet_connection_def wait_loop_offline)

lemma offline_download_pdf_exits:
  assumes "\<forall>k. \<not> probe w k" and "Pdf_URL r = Some url" and "url \<noteq> []"
  shows "download_pdf w s r = SystemExit"
  using assms
  by (simp add: download_pdf_def notna_and_attempt_def attempt_download_unfold
        await_connection_offline)

lemma timeout_step:
  assumes "\<forall>k. serve w url k = Raises Timeout"
    and "attempt_loop w pdf_filename url (a # rest) (s, v) \<noteq> SystemExit"
  shows "\<exists>s1 n. attempt_loop w pdf_filename url (a # rest) (s, v) =
                  attempt_loop w pdf_filename url rest
                    (s1, v\<lparr>status_message := ''Invalid Download (Timeout)''\<rparr>) \<and>
                requests s1 = Suc (requests s) \<and> files s1 = files s \<and>
                log s1 = log s @ replicate n (Sleep 1) @ [Get url, Sleep 1]"
proof (cases "await_connection w s")
  case SystemExit
  with assms(2) show ?thesis by simp
next
  case (Uncaught e)
  then show ?thesis by (simp add: await_connection_not_Uncaught)
next
  case (Returned s0)
  from await_connection_Returned [OF Returned] obtain n where
    f: "files s0 = files s" "requests s0 = requests s" "log s0 = log s @ replicate n (Sleep 1)"
    by blast
  let ?s1 = "time_sleep w 1 (s0\<lparr>requests := Suc (requests s0), log := log s0 @ [Get url]\<rparr>)"
  have t: "try_request w pdf_filename url (s0, v) =
      (Handled, s0\<lparr>requests := Suc (requests s0), log := log s0 @ [Get url]\<rparr>,
       v\<lparr>status_message := ''Invalid Download (Timeout)''\<rparr>)"
    using assms(1) by (simp add: try_request_def requests_get_def)
  have "attempt_loop w pdf_filename url (a # rest) (s, v) =
          attempt_loop w pdf_filename url rest
            (?s1, v\<lparr>status_message := ''Invalid Download (Timeout)''\<rparr>)"
    using Returned t by simp
  moreover have "requests ?s1 = Suc (requests s)" "files ?s1 = files s"
      "log ?s1 = log s @ replicate n (Sleep 1) @ [Get url, Sleep 1]"
    using f by (simp_all add: time_sleep_def)
  ultimately show ?thesis by blast
qed

lemma requests_time_sleep: "requests (time_sleep w secs s) = requests s"
  by (simp add: time_sleep_def)

lemma attempt_loop_writes:
  "attempt_loop w pdf_filename url attempts (s, v) = Returned (ok, s', v') \<Longrightarrow>
     requests s \<le> requests s' \<and>
     ((\<forall>k. requests s \<le> k \<and> k < requests s' \<longrightarrow> \<not> delivers_pdf (serve w url k))
        \<longrightarrow> files s' = files s) \<and>
     (ok \<longrightarrow>
        (\<exists>code chunks.
           serve w url (requests s' - 1) = Response code (Some ''application/pdf'') chunks None \<and>
           \<not> raise_for_status code \<and>
           files s' pdf_filename = Some (concat chunks) \<and>
           file_size_kb v' = KB (length (concat chunks))))"
proof (induction attempts arbitrary: s v)
  case Nil
  then show ?case by simp
next
  case (Cons a attempts)
  from Cons.prems obtain s1 fl s2 v2 where
    a: "await_connection w s = Returned s1" and
    t: "try_request w pdf_filename url (s1, v) = (fl, s2, v2)" and
    c: "fl = ReturnTrue \<and> ok \<and> s' = s2 \<and> v' = v2 \<or>
        fl = Break \<and> \<not> ok \<and> s' = s2 \<and> v' = v2 \<or>
        fl = Handled \<and>
          attempt_loop w pdf_filename url attempts (time_sleep w 1 s2, v2) = Returned (ok, s', v')"
    by (rule attempt_loop_Cons_Returned)
  have f1: "files s1 = files s" and r1: "requests s1 = requests s"
    using await_connection_Returned [OF a] by simp_all
  have r2: "requests s2 = Suc (requests s)"
    using try_request_log [OF t] r1 by simp
  have unch: "\<not> delivers_pdf (serve w url (requests s)) \<Longrightarrow> files s2 = files s"
    using try_request_unchanged [OF t] f1 r1 by simp
  from c show ?case
  proof (elim disjE conjE)
    assume "fl = ReturnTrue" ok "s' = s2" "v' = v2"
    with try_request_ReturnTrue [of w pdf_filename url s1 v s2 v2] t r1 r2 unch
    show ?thesis by auto
  next
    assume "fl = Break" "\<not> ok" "s' = s2" "v' = v2"
    with r2 unch show ?thesis by auto
  next
    assume "fl = Handled"
      and r: "attempt_loop w pdf_filename url attempts (time_sleep w 1 s2, v2) = Returned (ok, s', v')"
    note ih = Cons.IH [OF r]
    have le: "Suc (requests s) \<le> requests s'"
      using ih r2 by (simp add: requests_time_sleep)
    have "files s' = files s"
      if h: "\<forall>k. requests s \<le> k \<and> k < requests s' \<longrightarrow> \<not> delivers_pdf (serve w url k)"
    proof -
      from h le have "\<not> delivers_pdf (serve w url (requests s))" by simp
      then have "files s2 = files s" by (rule unch)
      moreover from h have
        "\<forall>k. requests (time_sleep w 1 s2) \<le> k \<and> k < requests s' \<longrightarrow>
               \<not> delivers_pdf (serve w url k)"
        by (simp add: requests_time_sleep r2)
      with ih have "files s' = files (time_sleep w 1 s2)" by blast
      ultimately show ?thesis by (simp add: files_time_sleep)
    qed
    with ih le show ?thesis by auto
  qed
qed

lemma as_completed_loop_futures:
  "as_completed_loop L (futures_of tasks) = Returned L' \<Longrightarrow>
     (\<forall>b. b \<in> (\<lambda>(w, s, r). name r) ` set tasks \<longrightarrow>
          (\<exists>e. L' b = Some e \<and> terminal_status (Download_Status e))) \<and>
     (\<forall>b. b \<notin> (\<lambda>(w, s, r). name r) ` set tasks \<longrightarrow> L' b = L b)"
proof (induction tasks arbitrary: L)
  case Nil
  then show ?case by (simp add: futures_of_def)
next
  case (Cons t tasks)
  obtain w s r where t: "t = (w, s, r)" by (cases t) auto
  from download_pdf_total [of w s r] show ?case
  proof
    assume "download_pdf w s r = SystemExit"
    with Cons.prems t show ?thesis by (simp add: futures_of_def)
  next
    assume "\<exists>s' st sz. download_pdf w s r = Returned (s', name r, st, sz) \<and> terminal_status st"
    then obtain s' st sz where
      d: "download_pdf w s r = Returned (s', name r, st, sz)" and ts: "terminal_status st"
      by blast
    let ?L = "L(name r \<mapsto> \<lparr>Download_Status = st, File_Size = Some sz\<rparr>)"
    from Cons.prems t d have "as_completed_loop ?L (futures_of tasks) = Returned L'"
      by (simp add: futures_of_def)
    note ih = Cons.IH [OF this]
    have "\<exists>e. L' (name r) = Some e \<and> terminal_status (Download_Status e)"
    proof (cases "name r \<in> (\<lambda>(w, s, r). name r) ` set tasks")
      case True
      with ih show ?thesis by blast
    next
      case False
      with ih have "L' (name r) = ?L (name r)" by blast
      with ts show ?thesis by simp
    qed
    with ih t show ?thesis by auto
  qed
qed

lemma as_completed_loop_not_Uncaught:
  "as_completed_loop L (futures_of tasks) \<noteq> Uncaught e"
proof (induction tasks arbitrary: L)
  case Nil
  show ?case by (simp add: futures_of_def)
next
  case (Cons t tasks)
  obtain w s r where t: "t = (w, s, r)" by (cases t) auto
  from download_pdf_total [of w s r] Cons.IH t show ?case
    by (auto simp: futures_of_def)
qed

lemmas run_defs =
  attempt_download_unfold await_connection_def has_internet_connection_def try_request_def
  requests_get_def raise_for_status_def time_sleep_def getsize_def fresh_def initial_locals_def

lemma wait_loop_window:
  "start_time \<le> now s \<Longrightarrow>
   \<forall>k. probes s \<le> k \<and> k < probes s + Suc (180 - (now s - start_time) div 1000)
        \<longrightarrow> \<not> probe w k \<Longrightarrow>
   wait_loop w start_time s = SystemExit"
proof (induction w start_time s rule: wait_loop.induct)
  case (1 w start_time s)
  let ?p = "s\<lparr>probes := Suc (probes s)\<rparr>"
  let ?e = "(now s - start_time) div 1000"
  from "1.prems"(2) have off: "\<not> probe w (probes s)" by simp
  show ?case
  proof (cases "180 - int ?e \<le> 0")
    case True
    with off show ?thesis
      by (simp add: wait_loop.simps [of w start_time s] has_internet_connection_def Let_def)
  next
    case False
    let ?s' = "time_sleep w 1 ?p"
    have le: "start_time \<le> now ?s'"
      using "1.prems"(1) by (simp add: time_sleep_def)
    have e': "Suc ?e \<le> (now ?s' - start_time) div 1000"
    proof -
      have "now ?s' - start_time = (now s - start_time) + 1000 + overrun w (sleeps s)"
        using "1.prems"(1) by (simp add: time_sleep_def)
      then have "(now s - start_time) + 1000 \<le> now ?s' - start_time" by simp
      then have "((now s - start_time) + 1000) div 1000 \<le> (now ?s' - start_time) div 1000"
        by (rule div_le_mono)
      then show ?thesis by simp
    qed
    have win: "\<forall>k. probes ?s' \<le> k \<and>
                  k < probes ?s' + Suc (180 - (now ?s' - start_time) div 1000)
                  \<longrightarrow> \<not> probe w k"
    proof (intro allI impI)
      fix k
      assume k: "probes ?s' \<le> k \<and> k < probes ?s' + Suc (180 - (now ?s' - start_time) div 1000)"
      have ps: "probes ?s' = Suc (probes s)" by (simp add: time_sleep_def)
      from False have "?e < 180" by simp
      with e' k ps have "probes s \<le> k \<and> k < probes s + Suc (180 - ?e)" by linarith
      with "1.prems"(2) show "\<not> probe w k" by blast
    qed
    have "wait_loop w start_time ?s' = SystemExit"
      using off False le win
      by (intro "1.IH" [where x = "has_internet_connection w s" and xa = ?p])
         (auto simp: has_internet_connection_def)
    with off False show ?thesis
      by (simp add: wait_loop.simps [of w start_time s] has_internet_connection_def Let_def
            del: One_nat_def)
  qed
qed

lemma await_connection_window:
  assumes "offline_window w s"
  shows "await_connection w s = SystemExit"
proof -
  let ?p = "s\<lparr>probes := Suc (probes s)\<rparr>"
  from assms have off: "\<not> probe w (probes s)"
    by (simp add: offline_window_def)
  have "wait_loop w (now ?p) ?p = SystemExit"
  proof (rule wait_loop_window)
    show "now ?p \<le> now ?p" by simp
    show "\<forall>k. probes ?p \<le> k \<and> k < probes ?p + Suc (180 - (now ?p - now ?p) div 1000)
            \<longrightarrow> \<not> probe w k"
      using assms by (auto simp: offline_window_def)
  qed
  with off show ?thesis
    by (simp add: await_connection_def has_internet_connection_def Let_def)
qed

lemma attempt_loop_heads_exit:
  "s' \<in> set (attempt_heads w pdf_filename url attempts (s, v)) \<Longrightarrow> offline_window w s' \<Longrightarrow>
   attempt_loop w pdf_filename url attempts (s, v) = SystemExit"
proof (induction attempts arbitrary: s v)
  case Nil
  then show ?case by simp
next
  case (Cons a attempts)
  show ?case
  proof (cases "s' = s")
    case True
    with Cons.prems(2) show ?thesis by (simp add: await_connection_window)
  next
    case False
    show ?thesis
    proof (cases "await_connection w s")
      case (Returned s1)
      obtain fl s2 v2 where t: "try_request w pdf_filename url (s1, v) = (fl, s2, v2)"
        by (cases "try_request w pdf_filename url (s1, v)") auto
      show ?thesis
      proof (cases "fl = Handled")
        case True
        with Cons.prems(1) False Returned t
        have "s' \<in> set (attempt_heads w pdf_filename url attempts (time_sleep w 1 s2, v2))"
          by simp
        from Cons.IH [OF this Cons.prems(2)] Returned t True show ?thesis by simp
      next
        case nh: False
        with Cons.prems(1) False Returned t show ?thesis
          by (cases fl) simp_all
      qed
    next
      case SystemExit
      then show ?thesis by simp
    next
      case (Uncaught e)
      with Cons.prems(1) False show ?thesis by simp
    qed
  qed
qed



lemma attempt_loop_online_timeouts:
  assumes "\<forall>k. serve w url k = Raises Timeout" and "\<forall>k. probes s \<le> k \<longrightarrow> probe w k"
  shows "attempt_loop w pdf_filename url [1, 2, 3] (s, v) \<noteq> SystemExit"
  using assms
  by (simp add: await_connection_def has_internet_connection_def try_request_def
        requests_get_def time_sleep_def)

lemma try_request_delivers:
  "try_request w pdf_filename url (s, v) = (fl, s2, v2) \<Longrightarrow>
   serve w url (requests s) = Response code (Some ''application/pdf'') chunks broken \<Longrightarrow>
   \<not> raise_for_status code \<Longrightarrow>
   files s2 = (files s)(pdf_filename \<mapsto> concat chunks)"
  by (auto simp: try_request_def requests_get_def getsize_def Let_def
           split: option.splits if_splits)

lemma attempt_loop_last_pdf:
  "attempt_loop w pdf_filename url attempts (s, v) = Returned (ok, s', v') \<Longrightarrow>
   requests s \<le> k \<Longrightarrow> k < requests s' \<Longrightarrow>
   serve w url k = Response code (Some ''application/pdf'') chunks broken \<Longrightarrow>
   \<not> raise_for_status code \<Longrightarrow>
   \<forall>j. k < j \<and> j < requests s' \<longrightarrow> \<not> delivers_pdf (serve w url j) \<Longrightarrow>
   files s' pdf_filename = Some (concat chunks)"
proof (induction attempts arbitrary: s v)
  case Nil
  then show ?case by simp
next
  case (Cons a attempts)
  from Cons.prems(1) obtain s1 fl s2 v2 where
    a: "await_connection w s = Returned s1" and
    t: "try_request w pdf_filename url (s1, v) = (fl, s2, v2)" and
    c: "fl = ReturnTrue \<and> ok \<and> s' = s2 \<and> v' = v2 \<or>
        fl = Break \<and> \<not> ok \<and> s' = s2 \<and> v' = v2 \<or>
        fl = Handled \<and>
          attempt_loop w pdf_filename url attempts (time_sleep w 1 s2, v2) = Returned (ok, s', v')"
    by (rule attempt_loop_Cons_Returned)
  have f1: "files s1 = files s" and r1: "requests s1 = requests s"
    using await_connection_Returned [OF a] by simp_all
  have r2: "requests s2 = Suc (requests s)"
    using try_request_log [OF t] r1 by simp
  show ?case
  proof (cases "k = requests s")
    case True
    with Cons.prems(4) r1 have "serve w url (requests s1) =
        Response code (Some ''application/pdf'') chunks broken" by simp
    from try_request_delivers [OF t this Cons.prems(5)]
    have f2: "files s2 pdf_filename = Some (concat chunks)" by simp
    from c show ?thesis
    proof (elim disjE conjE)
      assume "s' = s2"
      with f2 show ?thesis by simp
    next
      assume "s' = s2"
      with f2 show ?thesis by simp
    next
      assume r: "attempt_loop w pdf_filename url attempts (time_sleep w 1 s2, v2) =
                   Returned (ok, s', v')"
      from Cons.prems(6) True r2 have
        "\<forall>j. requests (time_sleep w 1 s2) \<le> j \<and> j < requests s' \<longrightarrow>
              \<not> delivers_pdf (serve w url j)"
        by (simp add: requests_time_sleep)
      with attempt_loop_writes [OF r] have "files s' = files (time_sleep w 1 s2)" by blast
      with f2 show ?thesis by (simp add: files_time_sleep)
    qed
  next
    case False
    with Cons.prems(2) have gt: "Suc (requests s) \<le> k" by simp
    from c show ?thesis
    proof (elim disjE conjE)
      assume "s' = s2"
      with r2 gt Cons.prems(3) show ?thesis by simp
    next
      assume "s' = s2"
      with r2 gt Cons.prems(3) show ?thesis by simp
    next
      assume r: "attempt_loop w pdf_filename url attempts (time_sleep w 1 s2, v2) =
                   Returned (ok, s', v')"
      have "requests (time_sleep w 1 s2) \<le> k"
        using gt r2 by (simp add: requests_time_sleep)
      from Cons.IH [OF r this Cons.prems(3) Cons.prems(4) Cons.prems(5) Cons.prems(6)]
      show ?thesis .
    qed
  qed
qed

subsection \<open>The fetcher\<close>

text \<open>
  C4, the claim as stated fails: a response whose \<^verbatim>\<open>Content-Type\<close> is
  \<^verbatim>\<open>text/html\<close> but whose status is 404 is taken by \<^verbatim>\<open>raise_for_status\<close> before
  the header is looked at. The attempt is retried and the URL ends, after three requests and
  three sleeps, with the HTTP error status.
\<close>

theorem attempt_download_html_404_counterexample:
  "serve world_404_then_pdf ''http://a/7.pdf'' 0 = Response 404 (Some ''text/html'') [] None \<and>
   (case attempt_download world_404_then_pdf ''PDF Downloads/7.pdf'' ''http://a/7.pdf''
           (fresh, initial_locals) of
      Returned (ok, s, v) \<Rightarrow>
        \<not> ok \<and> status_message v = ''Invalid Download (HTTP Error 404)'' \<and>
        requests s = 3 \<and> sleeps s = 3
    | SystemExit \<Rightarrow> False
    | Uncaught e \<Rightarrow> False)"
  by code_simp

text \<open>
  C4, amended. When the connection check of the first attempt passes and the first response
  passes \<^verbatim>\<open>raise_for_status\<close> with a \<^verbatim>\<open>Content-Type\<close> header that is missing or
  different from \<^verbatim>\<open>application/pdf\<close>, \<^verbatim>\<open>attempt_download\<close> returns \<open>False\<close> with the
  status \<^verbatim>\<open>'Invalid Download (Not a PDF file)'\<close> after that one request: nothing follows the
  request in the log, no retry sleep is made and no file is written.
\<close>

theorem attempt_download_not_pdf:
  assumes "await_connection w s = Returned s1"
    and "serve w url (requests s) = Response code content_type chunks broken"
    and "\<not> raise_for_status code"
    and "content_type \<noteq> Some ''application/pdf''"
  shows "attempt_download w pdf_filename url (s, v) =
           Returned (False,
                     s1\<lparr>requests := Suc (requests s), log := log s1 @ [Get url]\<rparr>,
                     v\<lparr>status_message := ''Invalid Download (Not a PDF file)''\<rparr>) \<and>
         files s1 = files s \<and> requests s1 = requests s \<and>
         (\<exists>n. log s1 = log s @ replicate n (Sleep 1))"
proof -
  note a = await_connection_Returned [OF assms(1)]
  then have "requests s1 = requests s" by simp
  with assms have "try_request w pdf_filename url (s1, v) =
      (Break, s1\<lparr>requests := Suc (requests s), log := log s1 @ [Get url]\<rparr>,
       v\<lparr>status_message := ''Invalid Download (Not a PDF file)''\<rparr>)"
    by (simp add: try_request_def requests_get_def)
  with assms(1) a show ?thesis
    by (simp add: attempt_download_unfold)
qed

theorem attempt_download_not_pdf_witness:
  "attempt_download world_html ''PDF Downloads/7.pdf'' ''http://a/7.pdf'' (fresh, initial_locals) =
     Returned (False,
               fresh\<lparr>probes := 1, requests := 1, log := [Get ''http://a/7.pdf'']\<rparr>,
               initial_locals\<lparr>status_message := ''Invalid Download (Not a PDF file)''\<rparr>)"
proof -
  have a: "await_connection world_html fresh = Returned (fresh\<lparr>probes := 1\<rparr>)"
    by (simp add: await_connection_def has_internet_connection_def world_html_def fresh_def)
  have b: "serve world_html ''http://a/7.pdf'' (requests fresh) =
             Response 200 (Some ''text/html'') [''<html>''] None"
    by (simp add: world_html_def)
  have c: "\<not> raise_for_status 200" by (simp add: raise_for_status_def)
  have d: "Some ''text/html'' \<noteq> Some ''application/pdf''" by simp
  from attempt_download_not_pdf [OF a b c d, of "''PDF Downloads/7.pdf''" initial_locals]
  show ?thesis by (simp add: fresh_def)
qed

text \<open>
  C5, the claim as stated fails: the connectivity check stands before every try. When every
  request times out and the machine goes offline after the first try, the countdown before
  the second try ends in \<^verbatim>\<open>sys.exit()\<close>: one try is made and no status is returned.
\<close>

theorem attempt_download_timeout_then_offline_counterexample:
  "(\<forall>k. serve world_timeout_then_offline ''http://a/7.pdf'' k = Raises Timeout) \<and>
   attempt_download world_timeout_then_offline ''PDF Downloads/7.pdf'' ''http://a/7.pdf''
     (fresh, initial_locals) = SystemExit"
proof -
  have m: "second_head \<in> set (attempt_heads world_timeout_then_offline ''PDF Downloads/7.pdf''
             ''http://a/7.pdf'' [1, 2, 3] (fresh, initial_locals))"
    by (simp add: second_head_def world_timeout_then_offline_def fresh_def
          await_connection_def has_internet_connection_def try_request_def requests_get_def
          time_sleep_def)
  have off: "offline_window world_timeout_then_offline second_head"
    by (simp add: offline_window_def world_timeout_then_offline_def second_head_def)
  from attempt_loop_heads_exit [OF m off] show ?thesis
    by (simp add: attempt_download_unfold world_timeout_then_offline_def)
qed

text \<open>
  C5, amended. When every request to the URL times out, \<^verbatim>\<open>attempt_download\<close> either is
  ended by \<^verbatim>\<open>sys.exit()\<close> in the offline countdown before one of its tries, or returns
  \<open>False\<close> with the status \<^verbatim>\<open>'Invalid Download (Timeout)'\<close> after exactly
  \<open>max_attempts = 3\<close> requests. Each request is then directly followed by a one-second
  sleep, so consecutive tries are one sleep apart, and the only other events are the
  one-second sleeps of the countdown before a try. It is the second case whenever the
  monitor reports online at every check.
\<close>

theorem attempt_download_all_timeouts:
  assumes "\<forall>k. serve w url k = Raises Timeout"
  shows "(attempt_download w pdf_filename url (s, v) = SystemExit \<or>
          (\<exists>s' a b c.
             attempt_download w pdf_filename url (s, v) =
               Returned (False, s', v\<lparr>status_message := ''Invalid Download (Timeout)''\<rparr>) \<and>
             max_attempts = 3 \<and>
             requests s' = requests s + max_attempts \<and>
             files s' = files s \<and>
             log s' = log s @ replicate a (Sleep 1) @ [Get url, Sleep 1]
                            @ replicate b (Sleep 1) @ [Get url, Sleep 1]
                            @ replicate c (Sleep 1) @ [Get url, Sleep 1])) \<and>
         ((\<forall>k. probes s \<le> k \<longrightarrow> probe w k) \<longrightarrow>
            attempt_download w pdf_filename url (s, v) \<noteq> SystemExit)"
proof (intro conjI impI)
  show "attempt_download w pdf_filename url (s, v) \<noteq> SystemExit"
    if "\<forall>k. probes s \<le> k \<longrightarrow> probe w k"
    using attempt_loop_online_timeouts [OF assms that] by (simp add: attempt_download_unfold)
next
  show "attempt_download w pdf_filename url (s, v) = SystemExit \<or>
          (\<exists>s' a b c.
             attempt_download w pdf_filename url (s, v) =
               Returned (False, s', v\<lparr>status_message := ''Invalid Download (Timeout)''\<rparr>) \<and>
             max_attempts = 3 \<and>
             requests s' = requests s + max_attempts \<and>
             files s' = files s \<and>
             log s' = log s @ replicate a (Sleep 1) @ [Get url, Sleep 1]
                            @ replicate b (Sleep 1) @ [Get url, Sleep 1]
                            @ replicate c (Sleep 1) @ [Get url, Sleep 1])"
  proof (cases "attempt_download w pdf_filename url (s, v) = SystemExit")
    case True
    then show ?thesis by simp
  next
    case False
    let ?v = "v\<lparr>status_message := ''Invalid Download (Timeout)''\<rparr>"
    have vv: "?v\<lparr>status_message := ''Invalid Download (Timeout)''\<rparr> = ?v" by simp
    have n0: "attempt_loop w pdf_filename url [1, 2, 3] (s, v) \<noteq> SystemExit"
      using False by (simp add: attempt_download_unfold)
    from timeout_step [OF assms n0] obtain s1 a where
      e1: "attempt_loop w pdf_filename url [1, 2, 3] (s, v) =
             attempt_loop w pdf_filename url [2, 3] (s1, ?v)"
      and r1: "requests s1 = Suc (requests s)" and f1: "files s1 = files s"
      and l1: "log s1 = log s @ replicate a (Sleep 1) @ [Get url, Sleep 1]"
      by blast
    from n0 e1 have n1: "attempt_loop w pdf_filename url [2, 3] (s1, ?v) \<noteq> SystemExit"
      by simp
    from timeout_step [OF assms n1] vv obtain s2 b where
      e2: "attempt_loop w pdf_filename url [2, 3] (s1, ?v) =
             attempt_loop w pdf_filename url [3] (s2, ?v)"
      and r2: "requests s2 = Suc (requests s1)" and f2: "files s2 = files s1"
      and l2: "log s2 = log s1 @ replicate b (Sleep 1) @ [Get url, Sleep 1]"
      by auto
    from n1 e2 have n2: "attempt_loop w pdf_filename url [3] (s2, ?v) \<noteq> SystemExit"
      by simp
    from timeout_step [OF assms n2] vv obtain s3 c where
      e3: "attempt_loop w pdf_filename url [3] (s2, ?v) =
             attempt_loop w pdf_filename url [] (s3, ?v)"
      and r3: "requests s3 = Suc (requests s2)" and f3: "files s3 = files s2"
      and l3: "log s3 = log s2 @ replicate c (Sleep 1) @ [Get url, Sleep 1]"
      by auto
    have "attempt_download w pdf_filename url (s, v) = Returned (False, s3, ?v)"
      using e1 e2 e3 by (simp add: attempt_download_unfold)
    moreover have "requests s3 = requests s + max_attempts"
      using r1 r2 r3 by (simp add: max_attempts_def)
    moreover have "files s3 = files s" using f1 f2 f3 by simp
    moreover have "log s3 = log s @ replicate a (Sleep 1) @ [Get url, Sleep 1]
                            @ replicate b (Sleep 1) @ [Get url, Sleep 1]
                            @ replicate c (Sleep 1) @ [Get url, Sleep 1]"
      using l1 l2 l3 by simp
    ultimately show ?thesis by (auto simp: max_attempts_def)
  qed
qed

theorem attempt_download_all_timeouts_witness:
  "(\<forall>k. serve world_timeout ''http://a/7.pdf'' k = Raises Timeout) \<and>
   (\<forall>k. probe world_timeout k) \<and>
   (\<exists>s' a b c.
      attempt_download world_timeout ''PDF Downloads/7.pdf'' ''http://a/7.pdf''
          (fresh, initial_locals) =
        Returned (False, s',
                  initial_locals\<lparr>status_message := ''Invalid Download (Timeout)''\<rparr>) \<and>
      max_attempts = 3 \<and>
      requests s' = requests fresh + max_attempts \<and>
      files s' = files fresh \<and>
      log s' = log fresh @ replicate a (Sleep 1) @ [Get ''http://a/7.pdf'', Sleep 1]
                        @ replicate b (Sleep 1) @ [Get ''http://a/7.pdf'', Sleep 1]
                        @ replicate c (Sleep 1) @ [Get ''http://a/7.pdf'', Sleep 1])"
proof -
  have a: "\<forall>k. serve world_timeout ''http://a/7.pdf'' k = Raises Timeout"
    by (simp add: world_timeout_def)
  have b: "\<forall>k. probe world_timeout k"
    by (simp add: world_timeout_def)
  from attempt_download_all_timeouts [OF a, of "''PDF Downloads/7.pdf''" fresh initial_locals] a b
  show ?thesis by blast
qed

text \<open>
  C6, the claim as stated fails: the file is opened at its final path before the body is
  streamed. When the stream of a PDF response breaks after the first chunk at every attempt,
  \<^verbatim>\<open>attempt_download\<close> returns \<open>False\<close> with a failure status and the partial content
  stays at the destination path, where there was no file before.
\<close>

theorem attempt_download_broken_stream_counterexample:
  "files fresh ''PDF Downloads/7.pdf'' = None \<and>
   (case attempt_download world_broken_stream ''PDF Downloads/7.pdf'' ''http://a/7.pdf''
           (fresh, initial_locals) of
      Returned (ok, s, v) \<Rightarrow>
        \<not> ok \<and> status_message v = ''Invalid Download (Connection Error)'' \<and>
        files s ''PDF Downloads/7.pdf'' = Some ''%PDF-1.4''
    | SystemExit \<Rightarrow> False
    | Uncaught e \<Rightarrow> False)"
  by code_simp

text \<open>
  C6, amended. \<^verbatim>\<open>attempt_download\<close> writes no path other than the destination path. If
  none of its requests meets a response that passes \<^verbatim>\<open>raise_for_status\<close> with
  \<^verbatim>\<open>Content-Type: application/pdf\<close>, the file system is left as it was. When it returns
  \<open>True\<close>, its last request met such a response with an unbroken stream, the destination
  file holds the whole body and \<^verbatim>\<open>file_size_kb\<close> is its length. In every case the
  destination file holds the chunks streamed by the last such response among its requests,
  whether that stream ended or broke: a partial file is neither emptied nor deleted.
\<close>

theorem attempt_download_writes:
  assumes "attempt_download w pdf_filename url (s, v) = Returned (ok, s', v')"
  shows "(\<forall>p. p \<noteq> pdf_filename \<longrightarrow> files s' p = files s p) \<and>
         ((\<forall>k. requests s \<le> k \<and> k < requests s' \<longrightarrow> \<not> delivers_pdf (serve w url k))
            \<longrightarrow> files s' = files s) \<and>
         (ok \<longrightarrow>
            (\<exists>code chunks.
               serve w url (requests s' - 1) =
                 Response code (Some ''application/pdf'') chunks None \<and>
               \<not> raise_for_status code \<and>
               files s' pdf_filename = Some (concat chunks) \<and>
               file_size_kb v' = KB (length (concat chunks)))) \<and>
         (\<forall>k code chunks broken.
            requests s \<le> k \<and> k < requests s' \<and>
            serve w url k = Response code (Some ''application/pdf'') chunks broken \<and>
            \<not> raise_for_status code \<and>
            (\<forall>j. k < j \<and> j < requests s' \<longrightarrow> \<not> delivers_pdf (serve w url j))
            \<longrightarrow> files s' pdf_filename = Some (concat chunks))"
proof -
  from assms have l: "attempt_loop w pdf_filename url [1, 2, 3] (s, v) = Returned (ok, s', v')"
    by (simp add: attempt_download_unfold)
  have "\<forall>k code chunks broken.
            requests s \<le> k \<and> k < requests s' \<and>
            serve w url k = Response code (Some ''application/pdf'') chunks broken \<and>
            \<not> raise_for_status code \<and>
            (\<forall>j. k < j \<and> j < requests s' \<longrightarrow> \<not> delivers_pdf (serve w url j))
            \<longrightarrow> files s' pdf_filename = Some (concat chunks)"
    using attempt_loop_last_pdf [OF l] by blast
  with attempt_loop_writes [OF l] attempt_loop_files [OF l] show ?thesis by simp
qed

theorem attempt_download_writes_witness:
  "attempt_download world_pdf ''PDF Downloads/7.pdf'' ''http://a/7.pdf'' (fresh, initial_locals) =
     Returned (True,
               \<lparr>now = 0, probes = 1, sleeps = 0, requests = 1,
                files = [''PDF Downloads/7.pdf'' \<mapsto> ''%PDF-1.4abc''],
                log = [Get ''http://a/7.pdf'']\<rparr>,
               initial_locals\<lparr>file_size_kb := KB 11\<rparr>) \<and>
   (\<exists>code chunks.
      serve world_pdf ''http://a/7.pdf'' 0 =
        Response code (Some ''application/pdf'') chunks None \<and>
      \<not> raise_for_status code \<and>
      concat chunks = ''%PDF-1.4abc'') \<and>
   attempt_download world_broken_stream ''PDF Downloads/7.pdf'' ''http://a/7.pdf''
       (fresh, initial_locals) =
     Returned (False,
               \<lparr>now = 3000, probes = 3, sleeps = 3, requests = 3,
                files = [''PDF Downloads/7.pdf'' \<mapsto> ''%PDF-1.4''],
                log = [Get ''http://a/7.pdf'', Sleep 1, Get ''http://a/7.pdf'', Sleep 1,
                       Get ''http://a/7.pdf'', Sleep 1]\<rparr>,
               initial_locals\<lparr>status_message := ''Invalid Download (Connection Error)''\<rparr>) \<and>
   serve world_broken_stream ''http://a/7.pdf'' 2 =
     Response 200 (Some ''application/pdf'') [''%PDF-1.4''] (Some ConnectionError)"
proof -
  have a: "attempt_download world_pdf ''PDF Downloads/7.pdf'' ''http://a/7.pdf''
             (fresh, initial_locals) =
     Returned (True,
               \<lparr>now = 0, probes = 1, sleeps = 0, requests = 1,
                files = [''PDF Downloads/7.pdf'' \<mapsto> ''%PDF-1.4abc''],
                log = [Get ''http://a/7.pdf'']\<rparr>,
               initial_locals\<lparr>file_size_kb := KB 11\<rparr>)"
    by (simp add: run_defs world_pdf_def)
  have b: "attempt_download world_broken_stream ''PDF Downloads/7.pdf'' ''http://a/7.pdf''
       (fresh, initial_locals) =
     Returned (False,
               \<lparr>now = 3000, probes = 3, sleeps = 3, requests = 3,
                files = [''PDF Downloads/7.pdf'' \<mapsto> ''%PDF-1.4''],
                log = [Get ''http://a/7.pdf'', Sleep 1, Get ''http://a/7.pdf'', Sleep 1,
                       Get ''http://a/7.pdf'', Sleep 1]\<rparr>,
               initial_locals\<lparr>status_message := ''Invalid Download (Connection Error)''\<rparr>)"
    by (simp add: run_defs world_broken_stream_def)
  have c: "serve world_broken_stream ''http://a/7.pdf'' 2 =
     Response 200 (Some ''application/pdf'') [''%PDF-1.4''] (Some ConnectionError)"
    by (simp add: world_broken_stream_def)
  from attempt_download_writes [OF a] attempt_download_writes [OF b] a b c show ?thesis by auto
qed

subsection \<open>Tasks and the status frame\<close>



text \<open>
  C7, the claim as stated fails: when the machine stays offline, the countdown of the
  connectivity gate ends in \<^verbatim>\<open>sys.exit()\<close> and \<^verbatim>\<open>download_pdf\<close> returns no status.
\<close>

theorem download_pdf_offline_counterexample: "download_pdf world_offline fresh row_7 = SystemExit"
  by (rule offline_download_pdf_exits [where url = "''http://a/7.pdf''"])
     (simp_all add: world_offline_def row_7_def)

text \<open>
  C7, amended. \<^verbatim>\<open>download_pdf\<close> either raises \<^verbatim>\<open>SystemExit\<close> from the offline countdown
  or returns the \<^verbatim>\<open>BRnum\<close> of its row with a status that is \<^verbatim>\<open>'Downloadet'\<close> or starts
  with \<^verbatim>\<open>'Invalid Download ('\<close>, hence is not \<^verbatim>\<open>'Ikke downloadet'\<close>; no exception of
  \<^verbatim>\<open>requests\<close> leaves it. The collecting loop never meets another exception, and when it
  runs to its end every task's row has such a status in the status frame.
\<close>

theorem download_pdf_status_or_exit:
  "(download_pdf w s r = SystemExit \<or>
    (\<exists>s' st sz. download_pdf w s r = Returned (s', name r, st, sz) \<and>
       terminal_status st \<and> st \<noteq> ''Ikke downloadet'')) \<and>
   as_completed_loop L (futures_of tasks) \<noteq> Uncaught e \<and>
   (as_completed_loop L (futures_of tasks) = Returned L' \<longrightarrow>
      (\<forall>t \<in> set tasks.
         \<exists>entry. L' (name (snd (snd t))) = Some entry \<and>
                 terminal_status (Download_Status entry) \<and>
                 Download_Status entry \<noteq> ''Ikke downloadet''))"
proof (intro conjI impI ballI)
  from download_pdf_total [of w s r] terminal_not_pending
  show "download_pdf w s r = SystemExit \<or>
    (\<exists>s' st sz. download_pdf w s r = Returned (s', name r, st, sz) \<and>
       terminal_status st \<and> st \<noteq> ''Ikke downloadet'')"
    by blast
next
  show "as_completed_loop L (futures_of tasks) \<noteq> Uncaught e"
    by (rule as_completed_loop_not_Uncaught)
next
  fix t
  assume l: "as_completed_loop L (futures_of tasks) = Returned L'" and m: "t \<in> set tasks"
  from m have "name (snd (snd t)) \<in> (\<lambda>(w, s, r). name r) ` set tasks"
    by (force simp: case_prod_beta)
  with as_completed_loop_futures [OF l] terminal_not_pending
  show "\<exists>entry. L' (name (snd (snd t))) = Some entry \<and>
                 terminal_status (Download_Status entry) \<and>
                 Download_Status entry \<noteq> ''Ikke downloadet''"
    by blast
qed

theorem download_pdf_status_or_exit_witness:
  "(\<exists>s' st sz. download_pdf world_pdf fresh row_7 = Returned (s', name row_7, st, sz) \<and>
      terminal_status st \<and> st \<noteq> ''Ikke downloadet'') \<and>
   as_completed_loop (new_status_frame [row_7]) (futures_of [(world_pdf, fresh, row_7)]) =
     Returned ((new_status_frame [row_7])
        (7 \<mapsto> \<lparr>Download_Status = ''Downloadet'', File_Size = Some (Str ''0.01 KB'')\<rparr>)) \<and>
   (\<exists>entry. ((new_status_frame [row_7])
        (7 \<mapsto> \<lparr>Download_Status = ''Downloadet'', File_Size = Some (Str ''0.01 KB'')\<rparr>))
          (name row_7) = Some entry \<and>
      terminal_status (Download_Status entry) \<and>
      Download_Status entry \<noteq> ''Ikke downloadet'')"
proof -
  let ?L1 = "(new_status_frame [row_7])
        (7 \<mapsto> \<lparr>Download_Status = ''Downloadet'', File_Size = Some (Str ''0.01 KB'')\<rparr>)"
  have f: "future_of (download_pdf world_pdf fresh row_7) =
             Returned (7, ''Downloadet'', Str ''0.01 KB'')"
    by code_simp
  then have n: "download_pdf world_pdf fresh row_7 \<noteq> SystemExit" by auto
  have l: "as_completed_loop (new_status_frame [row_7]) (futures_of [(world_pdf, fresh, row_7)]) =
             Returned ?L1"
    by (simp add: futures_of_def f)
  from download_pdf_status_or_exit [of world_pdf fresh row_7 "new_status_frame [row_7]" "[(world_pdf, fresh, row_7)]"
             "[]" ?L1] n l
  show ?thesis by simp
qed

text \<open>
  C8, the claim as stated fails: with two candidates and a batch size of 1, the first run
  downloads the first row, and a second run over the resulting frame selects the second row.
\<close>

theorem second_run_selects_more_counterexample:
  "selected_rows decimal ''1'' [row_7, row_8] (new_status_frame [row_7, row_8]) = [row_7] \<and>
   (case as_completed_loop (new_status_frame [row_7, row_8])
           (futures_of [(world_pdf, fresh, row_7)]) of
      Returned L1 \<Rightarrow>
        map_option Download_Status (L1 7) = Some ''Downloadet'' \<and>
        selected_rows decimal ''1'' [row_7, row_8] L1 = [row_8]
    | SystemExit \<Rightarrow> False
    | Uncaught e \<Rightarrow> False)"
  by code_simp

text \<open>
  C8, amended. After a first run whose tasks are the selected rows and whose collecting loop
  ran to its end, the candidates of a second run are the candidates of the first run without
  the rows that carry a processed \<^verbatim>\<open>BRnum\<close>, in the same order: no row of the first
  selection is selected again, whatever the second batch size. When the first selection took
  all the candidates, the second run selects no row.
\<close>

theorem second_run_skips_processed:
  assumes "as_completed_loop L (futures_of tasks) = Returned L'"
    and "set (map (\<lambda>(w, s, r). r) tasks) = set (selected_rows int_of typed df L)"
  shows "downloadable_rows df L' =
           filter (\<lambda>r. name r \<notin> name ` set (selected_rows int_of typed df L))
                  (downloadable_rows df L) \<and>
         set (selected_rows int_of2 typed2 df L') \<inter> set (selected_rows int_of typed df L) = {} \<and>
         (set (selected_rows int_of typed df L) = set (downloadable_rows df L) \<longrightarrow>
            selected_rows int_of2 typed2 df L' = [])"
proof -
  let ?sel = "selected_rows int_of typed df L"
  have names: "(\<lambda>(w, s, r). name r) ` set tasks = name ` set ?sel"
  proof -
    have "(\<lambda>(w, s, r). name r) ` set tasks = name ` set (map (\<lambda>(w, s, r). r) tasks)"
      by (force simp: case_prod_beta image_image)
    with assms(2) show ?thesis by simp
  qed
  note fut = as_completed_loop_futures [OF assms(1), unfolded names]
  have pt: "(case L' (name r) of None \<Rightarrow> False
             | Some e \<Rightarrow> Download_Status e = ''Ikke downloadet'') =
            (name r \<notin> name ` set ?sel \<and>
             (case L (name r) of None \<Rightarrow> False
              | Some e \<Rightarrow> Download_Status e = ''Ikke downloadet''))" for r
  proof (cases "name r \<in> name ` set ?sel")
    case True
    with fut obtain e where "L' (name r) = Some e" "terminal_status (Download_Status e)"
      by blast
    with True terminal_not_pending show ?thesis by auto
  next
    case False
    with fut have "L' (name r) = L (name r)" by blast
    with False show ?thesis by simp
  qed
  have d: "downloadable_rows df L' =
             filter (\<lambda>r. name r \<notin> name ` set ?sel) (downloadable_rows df L)"
    unfolding downloadable_rows_def filter_filter
    by (rule filter_cong) (auto simp: pt)
  have sub2: "set (selected_rows int_of2 typed2 df L') \<subseteq> set (downloadable_rows df L')"
    unfolding selected_rows_def by (rule set_head)
  have disj: "set (downloadable_rows df L') \<inter> set ?sel = {}"
    unfolding d by auto
  have e: "selected_rows int_of2 typed2 df L' = []"
    if "set ?sel = set (downloadable_rows df L)"
  proof -
    from that have "downloadable_rows df L' = []"
      unfolding d by (auto simp: filter_empty_conv)
    then show ?thesis by (simp add: selected_rows_def head_def)
  qed
  from d sub2 disj e show ?thesis by blast
qed

theorem second_run_skips_processed_witness:
  "selected_rows decimal ''5'' [row_7, row_8] (new_status_frame [row_7, row_8]) = [row_7, row_8] \<and>
   as_completed_loop (new_status_frame [row_7, row_8])
       (futures_of [(world_pdf, fresh, row_8), (world_pdf, fresh, row_7)]) =
     Returned ((new_status_frame [row_7, row_8])
        (8 \<mapsto> \<lparr>Download_Status = ''Downloadet'', File_Size = Some (Str ''0.01 KB'')\<rparr>,
         7 \<mapsto> \<lparr>Download_Status = ''Downloadet'', File_Size = Some (Str ''0.01 KB'')\<rparr>)) \<and>
   selected_rows decimal ''5'' [row_7, row_8]
     ((new_status_frame [row_7, row_8])
        (8 \<mapsto> \<lparr>Download_Status = ''Downloadet'', File_Size = Some (Str ''0.01 KB'')\<rparr>,
         7 \<mapsto> \<lparr>Download_Status = ''Downloadet'', File_Size = Some (Str ''0.01 KB'')\<rparr>)) = []"
proof -
  let ?L0 = "new_status_frame [row_7, row_8]"
  let ?L1 = "?L0
        (8 \<mapsto> \<lparr>Download_Status = ''Downloadet'', File_Size = Some (Str ''0.01 KB'')\<rparr>,
         7 \<mapsto> \<lparr>Download_Status = ''Downloadet'', File_Size = Some (Str ''0.01 KB'')\<rparr>)"
  let ?tasks = "[(world_pdf, fresh, row_8), (world_pdf, fresh, row_7)]"
  have f7: "future_of (download_pdf world_pdf fresh row_7) =
             Returned (7, ''Downloadet'', Str ''0.01 KB'')"
    by code_simp
  have f8: "future_of (download_pdf world_pdf fresh row_8) =
             Returned (8, ''Downloadet'', Str ''0.01 KB'')"
    by code_simp
  have l: "as_completed_loop ?L0 (futures_of ?tasks) = Returned ?L1"
    by (simp add: futures_of_def f7 f8)
  have s: "selected_rows decimal ''5'' [row_7, row_8] ?L0 = [row_7, row_8]"
    by (simp add: selected_rows_def num_pdfs_to_download_def decimal_def head_def
          downloadable_rows_def new_status_frame_def row_7_def row_8_def)
  have m: "set (map (\<lambda>(w, s, r). r) ?tasks) = set (selected_rows decimal ''5'' [row_7, row_8] ?L0)"
    unfolding s by auto
  have dl: "downloadable_rows [row_7, row_8] ?L0 = [row_7, row_8]"
    by (simp add: downloadable_rows_def new_status_frame_def row_7_def row_8_def)
  have e: "set (selected_rows decimal ''5'' [row_7, row_8] ?L0) =
           set (downloadable_rows [row_7, row_8] ?L0)"
    unfolding s dl ..
  from second_run_skips_processed [OF l m, of decimal "''5''"] e
  have "selected_rows decimal ''5'' [row_7, row_8] ?L1 = []" by blast
  with s l show ?thesis by simp
qed

end
